theory Spec2Isabelle
  imports Main
begin

section \<open>koa-happy-router: the middleware selection of \<open>addRoutes\<close> and the error boundary\<close>

text \<open>
  The development follows \<^verbatim>\<open>lib/index.ts\<close> (class \<^verbatim>\<open>HappyRouter\<close>) and
  \<^verbatim>\<open>lib/constants.ts\<close>. Values are typed as the TypeScript declarations type them.
  The underlying \<^verbatim>\<open>koa-router\<close> instance is an external collaborator: it is modelled
  as the sequence of calls it receives.
\<close>

subsection \<open>Values, middlewares and handlers\<close>

text \<open>
  A middleware or handler is an \<^verbatim>\<open>async (ctx, next) => ...\<close> function. The request context
  \<open>'c\<close> is a mutable object: the model threads it, so a call yields how the returned
  promise settles together with the context as the call left it. \<open>Rejected e\<close> stands both
  for a synchronous \<^verbatim>\<open>throw e\<close> and for a promise rejected with \<open>e\<close>: an \<^verbatim>\<open>await\<close>
  inside \<^verbatim>\<open>try\<close> sees the two alike.
\<close>

datatype 'e settled = Fulfilled | Rejected 'e

type_synonym ('e, 'c) Next = "'c \<Rightarrow> 'e settled \<times> 'c"

type_synonym ('e, 'c) IMiddleware = "'c \<Rightarrow> ('e, 'c) Next \<Rightarrow> 'e settled \<times> 'c"

type_synonym ('e, 'c) RouteHandler = "('e, 'c) IMiddleware"

type_synonym ('e, 'c) RouteMiddlewares = "('e, 'c) IMiddleware list"

text \<open>
  \<^verbatim>\<open>type ErrorHandler = (error, ctx, next?) => void\<close>: a procedure that may write to
  the context, and then returns (\<open>Fulfilled\<close>; what it returns is dropped) or throws
  (\<open>Rejected e\<close> for \<^verbatim>\<open>throw e\<close>). \<^verbatim>\<open>createHandler\<close> calls it with two arguments and
  does not await it.
\<close>

type_synonym ('e, 'c) ErrorHandler = "'e \<Rightarrow> 'c \<Rightarrow> 'e settled \<times> 'c"

text \<open>
  The values a route property can hold (\<^verbatim>\<open>options: any\<close> of a middleware factory).
  \<open>'f\<close> is the type of the function values.
\<close>

datatype 'f any =
    JUndefined
  | JNull
  | JBoolean bool
  | JNumber int
  | JString string
  | JFunction 'f
  | JArray "'f any list"
  | JObject "(string \<times> 'f any) list"

text \<open>\<^verbatim>\<open>type Middlewares = (options: any) => (ctx, next) => Promise<void>\<close>\<close>

type_synonym ('e, 'c) Middlewares = "('e, 'c) IMiddleware any \<Rightarrow> ('e, 'c) IMiddleware"

subsection \<open>Constants (\<^verbatim>\<open>lib/constants.ts\<close>)\<close>

text \<open>The keys of \<^verbatim>\<open>enum REQUEST_METHODS\<close>, and the enum as the map from key to value.\<close>

datatype REQUEST_METHODS_key =
  KEY_ALL | KEY_GET | KEY_PUT | KEY_POST | KEY_PATCH | KEY_DELETE | KEY_OPTIONS

fun REQUEST_METHODS :: "REQUEST_METHODS_key \<Rightarrow> string" where
  "REQUEST_METHODS KEY_ALL = ''all''"
| "REQUEST_METHODS KEY_GET = ''get''"
| "REQUEST_METHODS KEY_PUT = ''put''"
| "REQUEST_METHODS KEY_POST = ''post''"
| "REQUEST_METHODS KEY_PATCH = ''patch''"
| "REQUEST_METHODS KEY_DELETE = ''delete''"
| "REQUEST_METHODS KEY_OPTIONS = ''options''"

definition INITIAL_METHOD :: REQUEST_METHODS_key where
  "INITIAL_METHOD = KEY_ALL"

definition INITIAL_ROUTE_FIELDS :: "string list" where
  "INITIAL_ROUTE_FIELDS = [''url'', ''method'', ''middlewares'', ''handler'']"

subsection \<open>Routes\<close>

text \<open>
  \<^verbatim>\<open>type Route<T> = { url: string; handler?: RouteHandler; middlewares?: RouteMiddlewares;
  method?: keyof typeof REQUEST_METHODS } & T\<close>.

  \<open>url\<close>, \<open>handler\<close>, \<open>middlewares\<close> and \<open>method\<close> are what \<^verbatim>\<open>route.url\<close>,
  \<^verbatim>\<open>route.handler\<close>, \<^verbatim>\<open>route.middlewares\<close> and \<^verbatim>\<open>route.method\<close> evaluate to under the
  declared type (\<open>None\<close>: the property is absent or \<^verbatim>\<open>undefined\<close>). \<open>properties\<close> is the
  object as \<^verbatim>\<open>Object.keys(route)\<close> and \<^verbatim>\<open>route[key]\<close> see it: every own enumerable
  property, reserved or not, in enumeration order, with its value.
\<close>

record ('e, 'c) Route =
  url :: string
  handler :: "('e, 'c) RouteHandler option"
  middlewares :: "('e, 'c) RouteMiddlewares option"
  "method" :: "REQUEST_METHODS_key option"
  properties :: "(string \<times> ('e, 'c) IMiddleware any) list"

definition Object_keys :: "('e, 'c) Route \<Rightarrow> string list" where
  "Object_keys route = map fst (properties route)"

text \<open>\<^verbatim>\<open>route[key]\<close>: reading a property that is not there gives \<^verbatim>\<open>undefined\<close>.\<close>

definition Route_get :: "('e, 'c) Route \<Rightarrow> string \<Rightarrow> ('e, 'c) IMiddleware any" where
  "Route_get route key =
     (case map_of (properties route) key of None \<Rightarrow> JUndefined | Some v \<Rightarrow> v)"

subsection \<open>The underlying router\<close>

text \<open>
  \<^verbatim>\<open>routerInstance[verb](url, ...middlewares)\<close> and \<^verbatim>\<open>routerInstance.use(...middlewares)\<close>,
  recorded in the order they are made.
\<close>

datatype ('e, 'c) KoaRouter_call =
    Use "('e, 'c) IMiddleware list"
  | Register string string "('e, 'c) IMiddleware list"

record ('e, 'c) KoaRouter =
  prefix :: "string option"
  strict :: "bool option"
  methods :: "REQUEST_METHODS_key list option"
  calls :: "('e, 'c) KoaRouter_call list"

subsection \<open>The router\<close>

text \<open>
  \<open>middlewaresKeys\<close> is a \<^verbatim>\<open>Set<string>\<close>, kept as the list of its elements in
  insertion order, which is the order \<^verbatim>\<open>[...this.middlewaresKeys]\<close> yields.
  \<open>middlewaresStack\<close> is a \<^verbatim>\<open>Map<string, Middlewares>\<close>, of which only \<^verbatim>\<open>has\<close>,
  \<^verbatim>\<open>get\<close> and \<^verbatim>\<open>set\<close> are used.
\<close>

record ('e, 'c) HappyRouter =
  enableLogger :: bool
  errorHandler :: "('e, 'c) ErrorHandler option"
  routerInstance :: "('e, 'c) KoaRouter"
  middlewaresKeys :: "string list"
  middlewaresStack :: "string \<rightharpoonup> ('e, 'c) Middlewares"

record ('e, 'c) RouterOptions =
  opt_prefix :: "string option"
  opt_strict :: "bool option"
  opt_logger :: "bool option"
  opt_methods :: "REQUEST_METHODS_key list option"
  opt_errorHandler :: "('e, 'c) ErrorHandler option"

datatype error = TypeError

text \<open>\<^verbatim>\<open>Set.prototype.add\<close>: an element that is already there keeps its place.\<close>

definition Set_add :: "string \<Rightarrow> string list \<Rightarrow> string list" where
  "Set_add key s = (if key \<in> set s then s else s @ [key])"

text \<open>
  \<^verbatim>\<open>constructor(options?: RouterOptions)\<close>. \<open>requestLogger\<close> is the middleware of
  \<^verbatim>\<open>lib/logger.ts\<close>.
\<close>

definition new_HappyRouter ::
  "('e, 'c) IMiddleware \<Rightarrow> ('e, 'c) RouterOptions option \<Rightarrow> ('e, 'c) HappyRouter" where
  "new_HappyRouter requestLogger options =
     (let logger = (case Option.bind options opt_logger of Some b \<Rightarrow> b | None \<Rightarrow> False)
      in \<lparr> enableLogger = logger,
           errorHandler = Option.bind options opt_errorHandler,
           routerInstance =
             \<lparr> prefix = Option.bind options opt_prefix,
               strict = Option.bind options opt_strict,
               methods = Option.bind options opt_methods,
               calls = (if logger then [Use [requestLogger]] else []) \<rparr>,
           middlewaresKeys = [],
           middlewaresStack = Map.empty \<rparr>)"

text \<open>
  \<^verbatim>\<open>private async createHandler(handler, context, next)\<close>. With an \<open>errorHandler\<close> the
  handler runs inside \<^verbatim>\<open>try\<close>, and the \<^verbatim>\<open>catch\<close> block passes the error and the
  context object to \<open>errorHandler\<close>. That call stands in no \<^verbatim>\<open>try\<close> of its own: when it
  returns, the promise of \<open>createHandler\<close> is fulfilled; when it throws, the promise is
  rejected with what it threw.
\<close>

definition createHandler ::
  "('e, 'c) HappyRouter \<Rightarrow> ('e, 'c) RouteHandler \<Rightarrow> 'c \<Rightarrow> ('e, 'c) Next \<Rightarrow> 'e settled \<times> 'c" where
  "createHandler this handler' context next =
     (case errorHandler this of
        Some errorHandler' \<Rightarrow>
          (case handler' context next of
             (Fulfilled, context') \<Rightarrow> (Fulfilled, context')
           | (Rejected error, context') \<Rightarrow> errorHandler' error context')
      | None \<Rightarrow> handler' context next)"

text \<open>\<^verbatim>\<open>sortMiddlewares(keys: string[] = [])\<close>\<close>

definition sortMiddlewares ::
  "('e, 'c) HappyRouter \<Rightarrow> string list option \<Rightarrow> ('e, 'c) HappyRouter" where
  "sortMiddlewares this keys =
     fold (\<lambda>key this. this\<lparr>middlewaresKeys := Set_add key (middlewaresKeys this)\<rparr>)
       (case keys of None \<Rightarrow> [] | Some keys' \<Rightarrow> keys') this"

text \<open>
  \<^verbatim>\<open>registerMiddlewares(middlewares: Record<string, Middlewares>)\<close>: the argument object is
  the list of its properties in enumeration order.
\<close>

definition registerMiddlewares ::
  "('e, 'c) HappyRouter \<Rightarrow> (string \<times> ('e, 'c) Middlewares) list \<Rightarrow> ('e, 'c) HappyRouter" where
  "registerMiddlewares this middlewares' =
     fold (\<lambda>(key, factory) this. this\<lparr>middlewaresStack := (middlewaresStack this)(key \<mapsto> factory)\<rparr>)
       middlewares' this"

subsection \<open>\<^verbatim>\<open>addRoutes\<close>\<close>

text \<open>
  \<^verbatim>\<open>const routeMiddlewaresKeys = Object.keys(route).filter((key) =>
  !INITIAL_ROUTE_FIELDS.includes(key) && this.middlewaresStack.has(key))\<close>
\<close>

definition routeMiddlewaresKeys :: "('e, 'c) HappyRouter \<Rightarrow> ('e, 'c) Route \<Rightarrow> string list" where
  "routeMiddlewaresKeys this route =
     filter (\<lambda>key. \<not> key \<in> set INITIAL_ROUTE_FIELDS \<and> middlewaresStack this key \<noteq> None)
       (Object_keys route)"

text \<open>
  The local \<^verbatim>\<open>const middlewaresKeys\<close> of \<^verbatim>\<open>addRoutes\<close>:
  \<^verbatim>\<open>this.middlewaresKeys.size > 0 ? [...this.middlewaresKeys].filter((key) =>
  routeMiddlewaresKeys.includes(key)) : routeMiddlewaresKeys\<close>
\<close>

definition addRoutes_middlewaresKeys ::
  "('e, 'c) HappyRouter \<Rightarrow> ('e, 'c) Route \<Rightarrow> string list" where
  "addRoutes_middlewaresKeys this route =
     (if length (middlewaresKeys this) > 0
      then filter (\<lambda>key. key \<in> set (routeMiddlewaresKeys this route)) (middlewaresKeys this)
      else routeMiddlewaresKeys this route)"

text \<open>
  \<^verbatim>\<open>middlewaresKeys.map((key) => { const middlewareInstance = this.middlewaresStack.get(key)
  as Middlewares; return middlewareInstance(route[key]); })\<close>. The cast hides that
  \<^verbatim>\<open>get\<close> may return \<^verbatim>\<open>undefined\<close>, and calling that is a \<^verbatim>\<open>TypeError\<close>.
\<close>

fun instantiate ::
  "('e, 'c) HappyRouter \<Rightarrow> ('e, 'c) Route \<Rightarrow> string list \<Rightarrow> error + ('e, 'c) IMiddleware list" where
  "instantiate this route [] = Inr []"
| "instantiate this route (key # keys) =
     (case middlewaresStack this key of
        None \<Rightarrow> Inl TypeError
      | Some middlewareInstance \<Rightarrow>
          (case instantiate this route keys of
             Inl e \<Rightarrow> Inl e
           | Inr rest \<Rightarrow> Inr (middlewareInstance (Route_get route key) # rest)))"

text \<open>
  The last argument of the registration:
  \<^verbatim>\<open>(ctx, next) => route.handler && this.createHandler(route.handler, ctx, next)\<close>.
  Without a handler it returns \<^verbatim>\<open>undefined\<close> at once and does not call \<^verbatim>\<open>next\<close>.
\<close>

definition finalStep :: "('e, 'c) HappyRouter \<Rightarrow> ('e, 'c) Route \<Rightarrow> ('e, 'c) IMiddleware" where
  "finalStep this route =
     (\<lambda>ctx next.
        (case handler route of
           None \<Rightarrow> (Fulfilled, ctx)
         | Some handler' \<Rightarrow> createHandler this handler' ctx next))"

text \<open>The body of \<^verbatim>\<open>routesList.forEach((route) => ...)\<close>.\<close>

definition addRoute ::
  "('e, 'c) HappyRouter \<Rightarrow> ('e, 'c) Route \<Rightarrow> error + ('e, 'c) HappyRouter" where
  "addRoute this route =
     (let routeMethod =
            REQUEST_METHODS (case method route of None \<Rightarrow> INITIAL_METHOD | Some m \<Rightarrow> m)
      in case instantiate this route (addRoutes_middlewaresKeys this route) of
           Inl e \<Rightarrow> Inl e
         | Inr global \<Rightarrow>
             (let routeMiddlewares =
                    global @ (case middlewares route of None \<Rightarrow> [] | Some ms \<Rightarrow> ms)
              in Inr (this\<lparr>routerInstance := (routerInstance this)
                       \<lparr>calls := calls (routerInstance this) @
                          [Register routeMethod (url route)
                             (routeMiddlewares @ [finalStep this route])]\<rparr>\<rparr>)))"

text \<open>\<^verbatim>\<open>public addRoutes<T>(routesList: Route<T>[]): void\<close>; an exception ends the loop.\<close>

fun addRoutes ::
  "('e, 'c) HappyRouter \<Rightarrow> ('e, 'c) Route list \<Rightarrow> error + ('e, 'c) HappyRouter" where
  "addRoutes this [] = Inr this"
| "addRoutes this (route # routesList) =
     (case addRoute this route of
        Inl e \<Rightarrow> Inl e
      | Inr this' \<Rightarrow> addRoutes this' routesList)"

text \<open>
  What \<^verbatim>\<open>addRoutes\<close> does to a router: the registrations \<open>cs\<close> are appended to the calls
  the underlying router has received, and nothing else changes.
\<close>

abbreviation (input) with_calls ::
  "('e, 'c) HappyRouter \<Rightarrow> ('e, 'c) KoaRouter_call list \<Rightarrow> ('e, 'c) HappyRouter" where
  "with_calls this cs \<equiv>
     this\<lparr>routerInstance := (routerInstance this)\<lparr>calls := calls (routerInstance this) @ cs\<rparr>\<rparr>"

text \<open>A list without its repetitions, every element at the place of its first occurrence.\<close>

definition first_occurrences :: "'a list \<Rightarrow> 'a list" where
  "first_occurrences xs = rev (remdups (rev xs))"

subsection \<open>Example routers and routes\<close>

text \<open>
  The examples follow \<^verbatim>\<open>test/lib/index.js\<close>: the context is the array the middlewares
  push their text to, and errors are messages.
\<close>

definition passthrough :: "(string, string list) IMiddleware" where
  "passthrough = (\<lambda>ctx next. next ctx)"

definition pushText :: "string \<Rightarrow> (string, string list) Middlewares" where
  "pushText text = (\<lambda>options ctx next. next (ctx @ [text]))"

definition helloWorld :: "(string, string list) RouteHandler" where
  "helloWorld = (\<lambda>ctx next. (Fulfilled, ctx @ [''Hello World'']))"

definition failingHandler :: "(string, string list) RouteHandler" where
  "failingHandler = (\<lambda>ctx next. (Rejected ''Unexpected end of JSON input'', ctx @ [''handler'']))"

definition reportError :: "(string, string list) ErrorHandler" where
  "reportError = (\<lambda>error ctx. (Fulfilled, ctx @ [''errorHandler: '' @ error]))"

definition rethrowError :: "(string, string list) ErrorHandler" where
  "rethrowError = (\<lambda>error ctx. (Rejected error, ctx @ [''errorHandler: '' @ error]))"

definition downstream :: "(string, string list) Next" where
  "downstream = (\<lambda>ctx. (Fulfilled, ctx @ [''downstream'']))"

definition bare_router :: "(string, string list) HappyRouter" where
  "bare_router = new_HappyRouter passthrough None"

definition guarded_router :: "(string, string list) HappyRouter" where
  "guarded_router =
     new_HappyRouter passthrough
       (Some \<lparr> opt_prefix = None, opt_strict = None, opt_logger = None, opt_methods = None,
                opt_errorHandler = Some reportError \<rparr>)"

definition prefixed_router :: "string \<Rightarrow> bool \<Rightarrow> (string, string list) HappyRouter" where
  "prefixed_router p l =
     sortMiddlewares
       (registerMiddlewares
          (new_HappyRouter passthrough
             (Some \<lparr> opt_prefix = Some p, opt_strict = None, opt_logger = Some l,
                      opt_methods = None, opt_errorHandler = None \<rparr>))
          [(''a'', pushText ''a''), (''b'', pushText ''b''), (''c'', pushText ''c'')])
       (Some [''c'', ''a'', ''b''])"


definition reserved_router :: "(string, string list) HappyRouter" where
  "reserved_router =
     sortMiddlewares
       (registerMiddlewares (new_HappyRouter passthrough None) [(''a'', pushText ''a'')])
       (Some [''handler'', ''a''])"

definition scenario_route :: "(string, string list) Route" where
  "scenario_route =
     \<lparr> url = ''/x'', handler = None, middlewares = None, method = None,
       properties = [(''url'', JString ''/x''), (''a'', JNumber 1), (''b'', JNumber 2)] \<rparr>"


definition full_route :: "(string, string list) Route" where
  "full_route =
     \<lparr> url = ''/'', handler = Some helloWorld,
       middlewares = Some [pushText ''firstInRoute'' JUndefined, pushText ''secondInRoute'' JUndefined],
       method = Some KEY_GET,
       properties =
         [(''url'', JString ''/''), (''method'', JString ''GET''),
          (''a'', JString ''first''), (''b'', JString ''second''), (''c'', JString ''third''),
          (''middlewares'',
             JArray [JFunction (pushText ''firstInRoute'' JUndefined),
                     JFunction (pushText ''secondInRoute'' JUndefined)]),
          (''handler'', JFunction helloWorld)] \<rparr>"



definition rethrowing_router :: "(string, string list) HappyRouter" where
  "rethrowing_router =
     new_HappyRouter passthrough
       (Some \<lparr> opt_prefix = None, opt_strict = None, opt_logger = None, opt_methods = None,
                opt_errorHandler = Some rethrowError \<rparr>)"








section \<open>Properties\<close>

subsection \<open>The selected keys and their instantiation\<close>

lemma routeMiddlewaresKeys_set:
  "set (routeMiddlewaresKeys this route) =
     {key \<in> set (Object_keys route).
        key \<notin> set INITIAL_ROUTE_FIELDS \<and> key \<in> dom (middlewaresStack this)}"
  by (auto simp: routeMiddlewaresKeys_def)

lemma addRoutes_middlewaresKeys_subset:
  "set (addRoutes_middlewaresKeys this route) \<subseteq> set (routeMiddlewaresKeys this route)"
  by (auto simp: addRoutes_middlewaresKeys_def)

lemma addRoutes_middlewaresKeys_registered:
  "key \<in> set (addRoutes_middlewaresKeys this route) \<Longrightarrow> middlewaresStack this key \<noteq> None"
  using addRoutes_middlewaresKeys_subset [of this route]
  by (auto simp: routeMiddlewaresKeys_set)

lemma reserved_not_selected:
  "key \<in> set INITIAL_ROUTE_FIELDS \<Longrightarrow> key \<notin> set (addRoutes_middlewaresKeys this route)"
  using addRoutes_middlewaresKeys_subset [of this route]
  by (auto simp: routeMiddlewaresKeys_set)

text \<open>
  The cast in \<^verbatim>\<open>this.middlewaresStack.get(key) as Middlewares\<close> is safe on registered
  keys: the map over them raises no \<^verbatim>\<open>TypeError\<close>, and its result is, key by key, the
  registered factory applied to the route's value at that key.
\<close>

lemma instantiate_registered:
  "(\<And>key. key \<in> set keys \<Longrightarrow> middlewaresStack this key \<noteq> None) \<Longrightarrow>
   \<exists>global. instantiate this route keys = Inr global \<and>
     map Some global =
       map (\<lambda>key. map_option (\<lambda>factory. factory (Route_get route key)) (middlewaresStack this key))
         keys"
proof (induction keys)
  case Nil
  show ?case by simp
next
  case (Cons key keys)
  from Cons.prems obtain factory where f: "middlewaresStack this key = Some factory"
    by fastforce
  from Cons.IH Cons.prems obtain rest where
    r: "instantiate this route keys = Inr rest"
       "map Some rest =
          map (\<lambda>key. map_option (\<lambda>factory. factory (Route_get route key)) (middlewaresStack this key))
            keys"
    by auto
  show ?case using f r by simp
qed

lemma instantiate_selected:
  "\<exists>global. instantiate this route (addRoutes_middlewaresKeys this route) = Inr global \<and>
     map Some global =
       map (\<lambda>key. map_option (\<lambda>factory. factory (Route_get route key)) (middlewaresStack this key))
         (addRoutes_middlewaresKeys this route)"
  by (rule instantiate_registered) (rule addRoutes_middlewaresKeys_registered)

text \<open>One route: the registration \<^verbatim>\<open>addRoutes\<close> makes for it, which never fails.\<close>

lemma addRoute_registers:
  "\<exists>global. instantiate this route (addRoutes_middlewaresKeys this route) = Inr global \<and>
     addRoute this route =
       Inr (with_calls this
         [Register (REQUEST_METHODS (case method route of None \<Rightarrow> INITIAL_METHOD | Some m \<Rightarrow> m))
            (url route)
            (global @ (case middlewares route of None \<Rightarrow> [] | Some ms \<Rightarrow> ms) @
               [finalStep this route])])"
proof -
  from instantiate_selected [of this route] obtain global where
    "instantiate this route (addRoutes_middlewaresKeys this route) = Inr global" by blast
  then show ?thesis by (simp add: addRoute_def)
qed


subsection \<open>Dependence on the setup state only\<close>

lemma createHandler_cong:
  "errorHandler a = errorHandler b \<Longrightarrow> createHandler a = createHandler b"
  by (simp add: createHandler_def fun_eq_iff)

lemma finalStep_cong:
  assumes "errorHandler a = errorHandler b"
  shows "finalStep a route = finalStep b route"
  unfolding finalStep_def createHandler_cong [OF assms] by (rule refl)

lemma routeMiddlewaresKeys_cong:
  "middlewaresStack a = middlewaresStack b \<Longrightarrow>
   routeMiddlewaresKeys a route = routeMiddlewaresKeys b route"
  by (simp add: routeMiddlewaresKeys_def)

lemma addRoutes_middlewaresKeys_cong:
  "middlewaresStack a = middlewaresStack b \<Longrightarrow> middlewaresKeys a = middlewaresKeys b \<Longrightarrow>
   addRoutes_middlewaresKeys a route = addRoutes_middlewaresKeys b route"
  by (simp add: addRoutes_middlewaresKeys_def routeMiddlewaresKeys_cong [of a b])

lemma instantiate_cong:
  "middlewaresStack a = middlewaresStack b \<Longrightarrow> instantiate a route keys = instantiate b route keys"
  by (induction keys) (simp_all split: option.split)

lemma addRoute_same_setup:
  assumes "middlewaresStack a = middlewaresStack b"
    and "middlewaresKeys a = middlewaresKeys b"
    and "errorHandler a = errorHandler b"
  shows "\<exists>c. addRoute a route = Inr (with_calls a [c]) \<and> addRoute b route = Inr (with_calls b [c])"
proof -
  let ?c = "\<lambda>global.
    Register (REQUEST_METHODS (case method route of None \<Rightarrow> INITIAL_METHOD | Some m \<Rightarrow> m))
      (url route)
      (global @ (case middlewares route of None \<Rightarrow> [] | Some ms \<Rightarrow> ms) @ [finalStep a route])"
  from addRoute_registers [of a route] obtain global where
    g: "instantiate a route (addRoutes_middlewaresKeys a route) = Inr global"
    by blast
  have "instantiate b route (addRoutes_middlewaresKeys b route) = Inr global"
    using g assms
    by (simp add: addRoutes_middlewaresKeys_cong [of a b] instantiate_cong [of a b])
  then have "addRoute a route = Inr (with_calls a [?c global]) \<and>
      addRoute b route = Inr (with_calls b [?c global])"
    using g finalStep_cong [OF assms(3), of route] by (simp add: addRoute_def)
  then show ?thesis by blast
qed

lemma addRoutes_same_setup:
  assumes "middlewaresStack a = middlewaresStack b"
    and "middlewaresKeys a = middlewaresKeys b"
    and "errorHandler a = errorHandler b"
  shows "\<exists>cs. length cs = length routesList \<and>
     addRoutes a routesList = Inr (with_calls a cs) \<and>
     addRoutes b routesList = Inr (with_calls b cs)"
  using assms
proof (induction routesList arbitrary: a b)
  case Nil
  show ?case by simp
next
  case (Cons route routesList)
  from addRoute_same_setup [OF Cons.prems, of route] obtain c where
    c: "addRoute a route = Inr (with_calls a [c])" "addRoute b route = Inr (with_calls b [c])"
    by blast
  have "\<exists>cs. length cs = length routesList \<and>
      addRoutes (with_calls a [c]) routesList = Inr (with_calls (with_calls a [c]) cs) \<and>
      addRoutes (with_calls b [c]) routesList = Inr (with_calls (with_calls b [c]) cs)"
    by (rule Cons.IH) (simp_all add: Cons.prems)
  then obtain cs where
    cs: "length cs = length routesList"
      "addRoutes (with_calls a [c]) routesList = Inr (with_calls (with_calls a [c]) cs)"
      "addRoutes (with_calls b [c]) routesList = Inr (with_calls (with_calls b [c]) cs)"
    by blast
  have "length (c # cs) = length (route # routesList)"
    using cs(1) by simp
  moreover have "addRoutes a (route # routesList) = Inr (with_calls a (c # cs))"
    using c(1) cs(2) by simp
  moreover have "addRoutes b (route # routesList) = Inr (with_calls b (c # cs))"
    using c(2) cs(3) by simp
  ultimately show ?case by blast
qed

subsection \<open>The example routers\<close>


lemma prefixed_router_setup:
  "middlewaresKeys (prefixed_router p l) = [''c'', ''a'', ''b'']"
  "middlewaresStack (prefixed_router p l) =
     [''a'' \<mapsto> pushText ''a'', ''b'' \<mapsto> pushText ''b'', ''c'' \<mapsto> pushText ''c'']"
  "errorHandler (prefixed_router p l) = None"
  "prefix (routerInstance (prefixed_router p l)) = Some p"
  by (simp_all add: prefixed_router_def sortMiddlewares_def registerMiddlewares_def
      new_HappyRouter_def Set_add_def)

section \<open>The claims\<close>

subsection \<open>Order of the registry-resolved middlewares\<close>



subsection \<open>Route-local middlewares\<close>



subsection \<open>The error boundary\<close>

text \<open>
  Claim C3, as amended. With an \<open>errorHandler\<close> configured, when the handler throws or
  rejects with \<open>error\<close>, having left the context as \<open>context'\<close>, the wrapped call is
  exactly one call \<open>errorHandler error context'\<close>, on the thrown error and the request
  context, and it settles as that call does. So when the error handler returns, leaving
  the context as \<open>context''\<close>, the wrapped call is fulfilled with that context and the
  error does not leave \<open>createHandler\<close>; what the error handler itself throws is not
  caught.
\<close>

theorem createHandler_errorHandler_catches:
  assumes "errorHandler this = Some errorHandler'"
    and "handler' context next = (Rejected error, context')"
  shows "createHandler this handler' context next = errorHandler' error context' \<and>
     (errorHandler' error context' = (Fulfilled, context'') \<longrightarrow>
        createHandler this handler' context next = (Fulfilled, context''))"
  using assms by (simp add: createHandler_def)

text \<open>
  A router constructed with \<open>reportError\<close>, which returns, and a handler that throws: the
  wrapped call is fulfilled, and the context holds one report of that error, after what
  the handler had written.
\<close>

theorem createHandler_errorHandler_catches_witness:
  "errorHandler guarded_router = Some reportError \<and>
   failingHandler [] downstream = (Rejected ''Unexpected end of JSON input'', [''handler'']) \<and>
   reportError ''Unexpected end of JSON input'' [''handler''] =
     (Fulfilled, [''handler'', ''errorHandler: Unexpected end of JSON input'']) \<and>
   createHandler guarded_router failingHandler [] downstream =
     (Fulfilled, [''handler'', ''errorHandler: Unexpected end of JSON input''])"
proof -
  have eh: "errorHandler guarded_router = Some reportError"
    by (simp add: guarded_router_def new_HappyRouter_def)
  have h: "failingHandler [] downstream = (Rejected ''Unexpected end of JSON input'', [''handler''])"
    by (simp add: failingHandler_def)
  have r: "reportError ''Unexpected end of JSON input'' [''handler''] =
      (Fulfilled, [''handler'', ''errorHandler: Unexpected end of JSON input''])"
    by (simp add: reportError_def)
  from createHandler_errorHandler_catches
      [of guarded_router reportError failingHandler "[]" downstream, OF eh h] r
  have "createHandler guarded_router failingHandler [] downstream =
      (Fulfilled, [''handler'', ''errorHandler: Unexpected end of JSON input''])"
    by blast
  with eh h r show ?thesis by blast
qed

text \<open>
  The claim as it was stated says that with an error handler the error never leaves the
  wrapped handler. A router constructed with an error handler that throws the error it
  was given: the error handler runs once, and the wrapped call is rejected with the
  handler's error.
\<close>

theorem createHandler_rethrow_counterexample:
  "errorHandler rethrowing_router = Some rethrowError \<and>
   failingHandler [] downstream = (Rejected ''Unexpected end of JSON input'', [''handler'']) \<and>
   createHandler rethrowing_router failingHandler [] downstream =
     (Rejected ''Unexpected end of JSON input'',
      [''handler'', ''errorHandler: Unexpected end of JSON input''])"
  by (simp add: rethrowing_router_def new_HappyRouter_def createHandler_def failingHandler_def
      rethrowError_def)

text \<open>
  Claim C4. Without an \<open>errorHandler\<close>, when the handler throws or rejects with \<open>error\<close>,
  the wrapped call is rejected with the same \<open>error\<close>, and the context is as the handler
  left it.
\<close>

theorem createHandler_propagates:
  assumes "errorHandler this = None"
    and "handler' context next = (Rejected error, context')"
  shows "createHandler this handler' context next = (Rejected error, context')"
  using assms by (simp add: createHandler_def)

theorem createHandler_propagates_witness:
  "errorHandler bare_router = None \<and>
   failingHandler [] downstream = (Rejected ''Unexpected end of JSON input'', [''handler'']) \<and>
   createHandler bare_router failingHandler [] downstream =
     (Rejected ''Unexpected end of JSON input'', [''handler''])"
proof -
  have eh: "errorHandler bare_router = None"
    by (simp add: bare_router_def new_HappyRouter_def)
  have h: "failingHandler [] downstream = (Rejected ''Unexpected end of JSON input'', [''handler''])"
    by (simp add: failingHandler_def)
  from createHandler_propagates [of bare_router failingHandler "[]" downstream, OF eh h] eh h
  show ?thesis by simp
qed

subsection \<open>Reserved field names\<close>

lemma routeMiddlewaresKeys_reserved_upd:
  "key \<in> set INITIAL_ROUTE_FIELDS \<Longrightarrow>
   routeMiddlewaresKeys (this\<lparr>middlewaresStack := (middlewaresStack this)(key := x)\<rparr>) route =
   routeMiddlewaresKeys this route"
  unfolding routeMiddlewaresKeys_def by (rule filter_cong) auto

lemma instantiate_upd_other:
  "key \<notin> set keys \<Longrightarrow>
   instantiate (this\<lparr>middlewaresStack := (middlewaresStack this)(key := x)\<rparr>) route keys =
   instantiate this route keys"
  by (induction keys) (auto split: option.split)

text \<open>
  Claim C5. Let \<open>key\<close> be one of \<open>url\<close>, \<open>method\<close>, \<open>middlewares\<close>, \<open>handler\<close>. Even after a
  middleware factory has been registered under \<open>key\<close>, no route has \<open>key\<close> among the keys
  whose factories \<open>addRoutes\<close> calls: for every router state (every registry and every
  declared ordering) and every route, the selected keys and the middlewares instantiated
  from them are those of the router without that registration.
\<close>

theorem addRoutes_reserved_fields_never_arguments:
  assumes "key \<in> set INITIAL_ROUTE_FIELDS"
  shows "key \<notin> set (addRoutes_middlewaresKeys (registerMiddlewares this [(key, factory)]) route) \<and>
     addRoutes_middlewaresKeys (registerMiddlewares this [(key, factory)]) route =
       addRoutes_middlewaresKeys this route \<and>
     instantiate (registerMiddlewares this [(key, factory)]) route
         (addRoutes_middlewaresKeys (registerMiddlewares this [(key, factory)]) route) =
       instantiate this route (addRoutes_middlewaresKeys this route)"
proof -
  let ?that = "registerMiddlewares this [(key, factory)]"
  have that: "?that = this\<lparr>middlewaresStack := (middlewaresStack this)(key := Some factory)\<rparr>"
    by (simp add: registerMiddlewares_def)
  have keys: "addRoutes_middlewaresKeys ?that route = addRoutes_middlewaresKeys this route"
    unfolding that addRoutes_middlewaresKeys_def
    by (simp add: routeMiddlewaresKeys_reserved_upd [OF assms])
  have out: "key \<notin> set (addRoutes_middlewaresKeys this route)"
    by (rule reserved_not_selected [OF assms])
  have "instantiate ?that route (addRoutes_middlewaresKeys this route) =
      instantiate this route (addRoutes_middlewaresKeys this route)"
    unfolding that by (rule instantiate_upd_other [OF out])
  with keys out show ?thesis by simp
qed

text \<open>
  A factory registered under \<open>handler\<close>, which the declared ordering lists first, and a
  route that has a \<open>handler\<close> field: only \<open>a\<close> is selected.
\<close>

theorem addRoutes_reserved_fields_never_arguments_witness:
  "''handler'' \<in> set INITIAL_ROUTE_FIELDS \<and>
   ''handler'' \<in> set (Object_keys full_route) \<and>
   middlewaresStack (registerMiddlewares reserved_router [(''handler'', pushText ''handler'')])
     ''handler'' = Some (pushText ''handler'') \<and>
   middlewaresKeys (registerMiddlewares reserved_router [(''handler'', pushText ''handler'')]) =
     [''handler'', ''a''] \<and>
   ''handler'' \<notin> set (addRoutes_middlewaresKeys
      (registerMiddlewares reserved_router [(''handler'', pushText ''handler'')]) full_route) \<and>
   addRoutes_middlewaresKeys
      (registerMiddlewares reserved_router [(''handler'', pushText ''handler'')]) full_route = [''a'']"
proof -
  have r: "''handler'' \<in> set INITIAL_ROUTE_FIELDS"
    by (simp add: INITIAL_ROUTE_FIELDS_def)
  have st: "middlewaresKeys reserved_router = [''handler'', ''a'']"
      "middlewaresStack reserved_router = [''a'' \<mapsto> pushText ''a'']"
    by (simp_all add: reserved_router_def sortMiddlewares_def registerMiddlewares_def
        new_HappyRouter_def Set_add_def)
  have keys: "Object_keys full_route =
      [''url'', ''method'', ''a'', ''b'', ''c'', ''middlewares'', ''handler'']"
    by (simp add: Object_keys_def full_route_def)
  have sel: "addRoutes_middlewaresKeys reserved_router full_route = [''a'']"
    by (simp add: addRoutes_middlewaresKeys_def routeMiddlewaresKeys_def st keys
        INITIAL_ROUTE_FIELDS_def)
  from addRoutes_reserved_fields_never_arguments
    [of "''handler''" reserved_router "pushText ''handler''" full_route, OF r] sel
  have "''handler'' \<notin> set (addRoutes_middlewaresKeys
      (registerMiddlewares reserved_router [(''handler'', pushText ''handler'')]) full_route)"
    and "addRoutes_middlewaresKeys
      (registerMiddlewares reserved_router [(''handler'', pushText ''handler'')]) full_route = [''a'']"
    by simp_all
  with r keys show ?thesis by (simp add: registerMiddlewares_def st)
qed

subsection \<open>The final step\<close>



subsection \<open>Declaring the order\<close>

lemma remdups_snoc: "remdups (xs @ [x]) = remdups (filter (\<lambda>y. y \<noteq> x) xs) @ [x]"
  by (induction xs) auto

lemma first_occurrences_Cons:
  "first_occurrences (x # xs) = x # first_occurrences (filter (\<lambda>y. y \<noteq> x) xs)"
  by (simp add: first_occurrences_def remdups_snoc rev_filter)

lemma set_first_occurrences: "set (first_occurrences xs) = set xs"
  by (simp add: first_occurrences_def)

lemma fold_Set_add:
  "fold Set_add keys s = s @ first_occurrences (filter (\<lambda>key. key \<notin> set s) keys)"
proof (induction keys arbitrary: s)
  case Nil
  show ?case by (simp add: first_occurrences_def)
next
  case (Cons key keys)
  show ?case
  proof (cases "key \<in> set s")
    case True
    then show ?thesis using Cons.IH [of s] by (simp add: Set_add_def)
  next
    case False
    have "filter (\<lambda>k. k \<notin> set (s @ [key])) keys =
        filter (\<lambda>y. y \<noteq> key) (filter (\<lambda>k. k \<notin> set s) keys)"
      by (auto intro: filter_cong)
    with False show ?thesis
      using Cons.IH [of "s @ [key]"] by (simp add: Set_add_def first_occurrences_Cons)
  qed
qed

lemma sortMiddlewares_fold:
  "fold (\<lambda>key this. this\<lparr>middlewaresKeys := Set_add key (middlewaresKeys this)\<rparr>) keys this =
     this\<lparr>middlewaresKeys := fold Set_add keys (middlewaresKeys this)\<rparr>"
  by (induction keys arbitrary: this) simp_all

lemma sortMiddlewares_Some:
  "sortMiddlewares this (Some keys) =
     this\<lparr>middlewaresKeys := middlewaresKeys this @
       first_occurrences (filter (\<lambda>key. key \<notin> set (middlewaresKeys this)) keys)\<rparr>"
  by (simp add: sortMiddlewares_def sortMiddlewares_fold fold_Set_add)

lemma sortMiddlewares_append:
  "sortMiddlewares this (Some (keys @ keys')) =
     sortMiddlewares (sortMiddlewares this (Some keys)) (Some keys')"
  by (simp add: sortMiddlewares_def)

lemma sortMiddlewares_declared:
  assumes "set keys \<subseteq> set (middlewaresKeys this)"
  shows "sortMiddlewares this (Some keys) = this"
proof -
  from assms have "filter (\<lambda>key. key \<notin> set (middlewaresKeys this)) keys = []"
    by (auto simp: filter_empty_conv)
  then show ?thesis by (simp add: sortMiddlewares_Some first_occurrences_def)
qed

text \<open>
  Claim C7. \<open>sortMiddlewares\<close> only adds to the ordering set: the keys already declared
  keep their places, and the keys of the argument that were not declared follow them, each
  at the place of its first occurrence in the argument. Declaring again a key that is
  already declared, by an earlier call or earlier in the same call, changes nothing:
  the call with the repetition struck out gives the same router, and so does no further
  call. Calling \<open>sortMiddlewares\<close> twice with the same list gives what one call gives.
\<close>

theorem sortMiddlewares_additive_idempotent:
  "sortMiddlewares this (Some keys) =
     this\<lparr>middlewaresKeys := middlewaresKeys this @
       first_occurrences (filter (\<lambda>key. key \<notin> set (middlewaresKeys this)) keys)\<rparr> \<and>
   (key \<in> set (middlewaresKeys this) \<union> set keys \<longrightarrow>
      sortMiddlewares this (Some (keys @ key # keys')) = sortMiddlewares this (Some (keys @ keys')) \<and>
      sortMiddlewares (sortMiddlewares this (Some keys)) (Some [key]) =
        sortMiddlewares this (Some keys)) \<and>
   sortMiddlewares (sortMiddlewares this (Some keys)) (Some keys) = sortMiddlewares this (Some keys)"
proof (intro conjI impI)
  show "sortMiddlewares this (Some keys) =
     this\<lparr>middlewaresKeys := middlewaresKeys this @
       first_occurrences (filter (\<lambda>key. key \<notin> set (middlewaresKeys this)) keys)\<rparr>"
    by (rule sortMiddlewares_Some)
next
  have set_after: "set (middlewaresKeys (sortMiddlewares this (Some keys))) =
      set (middlewaresKeys this) \<union> set keys"
    by (auto simp: sortMiddlewares_Some set_first_occurrences)
  show "sortMiddlewares (sortMiddlewares this (Some keys)) (Some keys) =
      sortMiddlewares this (Some keys)"
    by (rule sortMiddlewares_declared) (simp add: set_after)
  assume "key \<in> set (middlewaresKeys this) \<union> set keys"
  then have again: "sortMiddlewares (sortMiddlewares this (Some keys)) (Some [key]) =
      sortMiddlewares this (Some keys)"
    by (intro sortMiddlewares_declared) (simp add: set_after)
  show "sortMiddlewares (sortMiddlewares this (Some keys)) (Some [key]) =
      sortMiddlewares this (Some keys)"
    by (rule again)
  have "sortMiddlewares this (Some (keys @ key # keys')) =
      sortMiddlewares (sortMiddlewares (sortMiddlewares this (Some keys)) (Some [key])) (Some keys')"
    using sortMiddlewares_append [of this "keys @ [key]" keys']
    by (simp add: sortMiddlewares_append)
  then show "sortMiddlewares this (Some (keys @ key # keys')) =
      sortMiddlewares this (Some (keys @ keys'))"
    by (simp add: again sortMiddlewares_append)
qed

text \<open>
  On a fresh router, \<open>sortMiddlewares(["b", "a", "b"])\<close> declares \<open>b\<close>, \<open>a\<close>; a further
  \<open>a\<close> before \<open>c\<close> in the same call, or in a call of its own, changes nothing.
\<close>

theorem sortMiddlewares_additive_idempotent_witness:
  "middlewaresKeys (sortMiddlewares bare_router (Some [''b'', ''a'', ''b''])) = [''b'', ''a''] \<and>
   ''a'' \<in> set (middlewaresKeys bare_router) \<union> set [''b'', ''a'', ''b''] \<and>
   sortMiddlewares bare_router (Some ([''b'', ''a'', ''b''] @ ''a'' # [''c''])) =
     sortMiddlewares bare_router (Some ([''b'', ''a'', ''b''] @ [''c''])) \<and>
   sortMiddlewares (sortMiddlewares bare_router (Some [''b'', ''a'', ''b''])) (Some [''a'']) =
     sortMiddlewares bare_router (Some [''b'', ''a'', ''b'']) \<and>
   sortMiddlewares (sortMiddlewares bare_router (Some [''b'', ''a'', ''b'']))
       (Some [''b'', ''a'', ''b'']) =
     sortMiddlewares bare_router (Some [''b'', ''a'', ''b''])"
proof -
  have none: "middlewaresKeys bare_router = []"
    by (simp add: bare_router_def new_HappyRouter_def)
  have first: "first_occurrences [''b'', ''a'', ''b''] = [''b'', ''a'']"
    by (simp add: first_occurrences_def)
  note t = sortMiddlewares_additive_idempotent
    [of bare_router "[''b'', ''a'', ''b'']" "''a''" "[''c'']"]
  from t have "sortMiddlewares bare_router (Some [''b'', ''a'', ''b'']) =
      bare_router\<lparr>middlewaresKeys := middlewaresKeys bare_router @
        first_occurrences
          (filter (\<lambda>key. key \<notin> set (middlewaresKeys bare_router)) [''b'', ''a'', ''b''])\<rparr>"
    by (rule conjunct1)
  then have declared:
    "middlewaresKeys (sortMiddlewares bare_router (Some [''b'', ''a'', ''b''])) = [''b'', ''a'']"
    by (simp add: none first)
  have again: "''a'' \<in> set (middlewaresKeys bare_router) \<union> set [''b'', ''a'', ''b'']"
    by simp
  from t again have
    "sortMiddlewares bare_router (Some ([''b'', ''a'', ''b''] @ ''a'' # [''c''])) =
       sortMiddlewares bare_router (Some ([''b'', ''a'', ''b''] @ [''c'']))"
    "sortMiddlewares (sortMiddlewares bare_router (Some [''b'', ''a'', ''b''])) (Some [''a'']) =
       sortMiddlewares bare_router (Some [''b'', ''a'', ''b''])"
    "sortMiddlewares (sortMiddlewares bare_router (Some [''b'', ''a'', ''b'']))
         (Some [''b'', ''a'', ''b'']) =
       sortMiddlewares bare_router (Some [''b'', ''a'', ''b''])"
    by blast+
  with declared again show ?thesis by blast
qed

subsection \<open>Determinism and frame\<close>

text \<open>
  Claim C8. Two routers with the same registry, the same declared ordering and the same
  error handler, whatever else distinguishes them (prefix, logger, routes added before),
  register for the same list of routes the same sequence \<open>cs\<close> of registrations: the same
  verbs and urls, and chains that are equal as functions, step by step.
\<close>

theorem addRoutes_deterministic:
  assumes "middlewaresStack a = middlewaresStack b"
    and "middlewaresKeys a = middlewaresKeys b"
    and "errorHandler a = errorHandler b"
  shows "\<exists>cs. addRoutes a routesList = Inr (with_calls a cs) \<and>
     addRoutes b routesList = Inr (with_calls b cs)"
  using addRoutes_same_setup [OF assms, of routesList] by blast

theorem addRoutes_deterministic_witness:
  "middlewaresStack (prefixed_router ''/one'' False) =
     middlewaresStack (prefixed_router ''/two'' True) \<and>
   middlewaresKeys (prefixed_router ''/one'' False) =
     middlewaresKeys (prefixed_router ''/two'' True) \<and>
   errorHandler (prefixed_router ''/one'' False) = errorHandler (prefixed_router ''/two'' True) \<and>
   prefix (routerInstance (prefixed_router ''/one'' False)) \<noteq>
     prefix (routerInstance (prefixed_router ''/two'' True)) \<and>
   (\<exists>cs. addRoutes (prefixed_router ''/one'' False) [scenario_route, full_route] =
            Inr (with_calls (prefixed_router ''/one'' False) cs) \<and>
         addRoutes (prefixed_router ''/two'' True) [scenario_route, full_route] =
            Inr (with_calls (prefixed_router ''/two'' True) cs))"
proof -
  have same: "middlewaresStack (prefixed_router ''/one'' False) =
      middlewaresStack (prefixed_router ''/two'' True)"
    "middlewaresKeys (prefixed_router ''/one'' False) =
      middlewaresKeys (prefixed_router ''/two'' True)"
    "errorHandler (prefixed_router ''/one'' False) = errorHandler (prefixed_router ''/two'' True)"
    by (simp_all add: prefixed_router_setup)
  from addRoutes_deterministic [OF same, of "[scenario_route, full_route]"] same
  show ?thesis by (simp add: prefixed_router_setup)
qed

text \<open>
  Claim C9. \<open>addRoutes\<close> returns, and the router it leaves differs from the one it found
  only in the calls the underlying router has received, to which one registration per
  route was appended: the registry, the ordering set and the error handler are what they
  were.
\<close>

theorem addRoutes_frame:
  "\<exists>this' cs. addRoutes this routesList = Inr this' \<and>
     middlewaresStack this' = middlewaresStack this \<and>
     middlewaresKeys this' = middlewaresKeys this \<and>
     errorHandler this' = errorHandler this \<and>
     this' = with_calls this cs \<and> length cs = length routesList"
proof -
  from addRoutes_same_setup [of this this routesList] obtain cs where
    "length cs = length routesList" "addRoutes this routesList = Inr (with_calls this cs)"
    by auto
  then show ?thesis by auto
qed

subsection \<open>Presence of a field, not its value\<close>






end
